theory Spec2Isabelle
  imports Complex_Main "HOL-Library.AList" "HOL-Library.Multiset"
begin

section \<open>Data model of \<^verbatim>\<open>content.js\<close>\<close>

text \<open>
  The exporter reads JSON:API resources.  One record type stands for every element of a
  response's \<^verbatim>\<open>data\<close> and \<^verbatim>\<open>included\<close> arrays: \<open>res_type\<close> is \<^verbatim>\<open>item.type\<close>,
  \<open>res_id\<close> is \<^verbatim>\<open>item.id\<close>, the next three fields are the requested bill attributes
  (\<^verbatim>\<open>amount_cents\<close>, \<^verbatim>\<open>vat_charge_amount_cents\<close>, \<^verbatim>\<open>currency\<close>), \<open>name\<close> and \<open>url\<close> are
  the requested campaign attributes, and \<open>campaign_ref\<close> is the value of
  \<^verbatim>\<open>bill.relationships?.campaign?.data?.id\<close> (\<open>None\<close> when any link of the optional chain
  is missing).  Amounts are integers in minor units; an absent amount is \<open>None\<close>.
  The \<^verbatim>\<open>attributes\<close> object itself is always present.
\<close>

record resource =
  res_type :: string
  res_id :: string
  amount_cents :: "int option"
  vat_charge_amount_cents :: "int option"
  currency :: string
  name :: string
  url :: "string option"
  campaign_ref :: "string option"

text \<open>
  A JavaScript \<^verbatim>\<open>Map\<close> keeps its keys in insertion order and \<^verbatim>\<open>set\<close> on a present key
  replaces the value in place.  Maps whose enumeration order or whose sum is observed
  are association lists with \<^const>\<open>map_of\<close> for \<^verbatim>\<open>get\<close> and \<^const>\<open>AList.update\<close> for
  \<^verbatim>\<open>set\<close>; the campaign map, which is only ever looked up, is a partial function.
\<close>

record creator =
  creator_name :: string
  yearlySpends :: "(string \<times> int) list"
  creator_currency :: string
  creator_url :: "string option"

record year_data =
  bills :: "resource list"
  campaigns :: "string \<rightharpoonup> resource"

type_synonym creator_map = "(string \<times> creator) list"

section \<open>Aggregator: \<^verbatim>\<open>processBillsData\<close>\<close>

text \<open>\<^verbatim>\<open>x || 0\<close> on an amount that is an integer or absent.\<close>

definition or_zero :: "int option \<Rightarrow> int" where
  "or_zero x = (case x of None \<Rightarrow> 0 | Some v \<Rightarrow> v)"

text \<open>Line 148: \<^verbatim>\<open>(bill.attributes.amount_cents || 0) + (bill.attributes.vat_charge_amount_cents || 0)\<close>.\<close>

definition billAmountCents :: "resource \<Rightarrow> int" where
  "billAmountCents bill = or_zero (amount_cents bill) + or_zero (vat_charge_amount_cents bill)"

text \<open>
  Lines 140--144: the campaign a bill resolves to.  \<^verbatim>\<open>!campaignId\<close> holds for a missing
  identifier and for the empty string; \<^verbatim>\<open>!campaign\<close> holds when the year's map has no
  entry for the identifier.
\<close>

definition resolve :: "(string \<rightharpoonup> resource) \<Rightarrow> resource \<Rightarrow> resource option" where
  "resolve cs bill =
     (case campaign_ref bill of
        None \<Rightarrow> None
      | Some campaignId \<Rightarrow> if campaignId = [] then None else cs campaignId)"

text \<open>
  Lines 139--162, the body of the inner loop for one bill of the year \<open>year\<close> (the key of
  \<^verbatim>\<open>billsByYear\<close>, a string).  The two \<^verbatim>\<open>continue\<close> statements leave the map as it is.
  Otherwise a creator seen for the first time is appended with the bill's currency and the
  campaign's URL, and the creator's entry for the year is set to the old amount (or 0) plus
  the bill's combined amount.
\<close>

definition processBill :: "string \<Rightarrow> (string \<rightharpoonup> resource) \<Rightarrow> creator_map \<Rightarrow> resource \<Rightarrow> creator_map" where
  "processBill year cs creatorData bill =
     (case resolve cs bill of
        None \<Rightarrow> creatorData
      | Some campaign \<Rightarrow>
          let creatorName = name campaign;
              creatorData' =
                (case map_of creatorData creatorName of
                   None \<Rightarrow> creatorData @
                     [(creatorName,
                       \<lparr>creator_name = creatorName, yearlySpends = [],
                        creator_currency = currency bill, creator_url = url campaign\<rparr>)]
                 | Some _ \<Rightarrow> creatorData)
          in AList.map_entry creatorName
               (\<lambda>c. c\<lparr>yearlySpends :=
                  AList.update year
                    (or_zero (map_of (yearlySpends c) year) + billAmountCents bill)
                    (yearlySpends c)\<rparr>)
               creatorData')"

text \<open>
  The outer loop runs over \<^verbatim>\<open>Object.entries(billsByYear)\<close>; the model takes that list of
  entries, in the order the loop visits them.  The second parameter of the source function,
  \<^verbatim>\<open>campaignsByYear\<close>, is never read and is left out.
\<close>

definition processYear :: "creator_map \<Rightarrow> string \<times> year_data \<Rightarrow> creator_map" where
  "processYear creatorData e = foldl (processBill (fst e) (campaigns (snd e))) creatorData (bills (snd e))"

definition processBillsData :: "(string \<times> year_data) list \<Rightarrow> creator_map" where
  "processBillsData billsByYear = foldl processYear [] billsByYear"

text \<open>Reading the aggregate: a creator's total for a year, if recorded.\<close>

definition spend :: "creator_map \<Rightarrow> string \<Rightarrow> string \<Rightarrow> int option" where
  "spend creatorData creatorName year =
     (case map_of creatorData creatorName of
        None \<Rightarrow> None
      | Some c \<Rightarrow> map_of (yearlySpends c) year)"

text \<open>
  Observers used to state the properties of the aggregate: the sum of one creator's yearly
  totals, the sum over all creators, the bills of the input that resolve to a campaign
  (in processing order, alone and paired with their campaign), the amounts of one year's
  bills that resolve to a given creator name, the first resolving bill of a creator name,
  and the two attributes a creator record stores besides its totals.
\<close>

definition yearTotal :: "creator \<Rightarrow> int" where
  "yearTotal c = sum_list (map snd (yearlySpends c))"

definition grandTotal :: "creator_map \<Rightarrow> int" where
  "grandTotal creatorData = sum_list (map (\<lambda>e. yearTotal (snd e)) creatorData)"

definition includedBills :: "(string \<times> year_data) list \<Rightarrow> resource list" where
  "includedBills billsByYear =
     concat (map (\<lambda>e. filter (\<lambda>b. resolve (campaigns (snd e)) b \<noteq> None) (bills (snd e))) billsByYear)"

definition billAmounts :: "(string \<rightharpoonup> resource) \<Rightarrow> string \<Rightarrow> resource list \<Rightarrow> int list" where
  "billAmounts cs n bs =
     map billAmountCents (filter (\<lambda>b. map_option name (resolve cs b) = Some n) bs)"

definition resolvedBills :: "(string \<times> year_data) list \<Rightarrow> (resource \<times> resource) list" where
  "resolvedBills billsByYear =
     concat (map (\<lambda>e. List.map_filter (\<lambda>b. map_option (Pair b) (resolve (campaigns (snd e)) b))
                         (bills (snd e)))
       billsByYear)"

definition firstBillFor :: "string \<Rightarrow> (string \<times> year_data) list \<Rightarrow> (resource \<times> resource) option" where
  "firstBillFor n billsByYear = find (\<lambda>bc. name (snd bc) = n) (resolvedBills billsByYear)"

definition storedIdentity :: "creator \<Rightarrow> string \<times> string option" where
  "storedIdentity c = (creator_currency c, creator_url c)"

section \<open>Numbers as text\<close>

text \<open>
  \<^verbatim>\<open>toString\<close> of an integer number is its decimal numeral, with a minus sign when
  negative.
\<close>

definition digit :: "nat \<Rightarrow> char" where
  "digit d = ''0123456789'' ! (d mod 10)"

fun string_of_nat :: "nat \<Rightarrow> string" where
  "string_of_nat n = (if n < 10 then [digit n] else string_of_nat (n div 10) @ [digit n])"

declare string_of_nat.simps [simp del]

definition toString :: "int \<Rightarrow> string" where
  "toString i = (if i < 0 then ''-'' @ string_of_nat (nat (- i)) else string_of_nat (nat i))"

text \<open>
  \<^verbatim>\<open>(amountCents / 100).toFixed(2)\<close> for an integer \<^verbatim>\<open>amountCents\<close>: the quotient has at
  most two decimals, so the text is the sign, the whole hundreds and the two last digits.
  (JavaScript computes the quotient in binary floating point; for integers of magnitude
  below \<open>2\<^sup>5\<^sup>2\<close> the text produced is this one.)
\<close>

definition toFixed2 :: "int \<Rightarrow> string" where
  "toFixed2 a =
     (if a < 0 then ''-'' else []) @ string_of_nat (nat \<bar>a\<bar> div 100) @ ''.'' @
     [digit (nat \<bar>a\<bar> div 10), digit (nat \<bar>a\<bar>)]"

text \<open>\<^verbatim>\<open>Math.ceil(a / b)\<close> on non-negative integers, \<open>b\<close> positive.\<close>

definition ceil_div :: "nat \<Rightarrow> nat \<Rightarrow> nat" where
  "ceil_div a b = (a + b - 1) div b"

text \<open>
  \<^verbatim>\<open>Array.prototype.sort(compare)\<close> is stable; with a comparator that is a difference of
  integer keys the sorted array is the one a stable insertion sort produces.  An element
  is placed before the first element it does not exceed.
\<close>

fun js_insort :: "('a \<Rightarrow> 'a \<Rightarrow> int) \<Rightarrow> 'a \<Rightarrow> 'a list \<Rightarrow> 'a list" where
  "js_insort cmp x [] = [x]"
| "js_insort cmp x (y # ys) = (if cmp x y \<le> 0 then x # y # ys else y # js_insort cmp x ys)"

definition js_sort :: "('a \<Rightarrow> 'a \<Rightarrow> int) \<Rightarrow> 'a list \<Rightarrow> 'a list" where
  "js_sort cmp xs = foldr (js_insort cmp) xs []"

text \<open>\<^verbatim>\<open>array.join(sep)\<close> on an array of strings.\<close>

fun join :: "string \<Rightarrow> string list \<Rightarrow> string" where
  "join sep [] = []"
| "join sep [x] = x"
| "join sep (x # y # ys) = x @ sep @ join sep (y # ys)"

section \<open>Fetcher: \<^verbatim>\<open>fetchYearData\<close>\<close>

text \<open>The fields the constructor sets.\<close>

record exporter =
  baseUrl :: string
  pageSize :: nat
  delay :: nat

definition PatreonDataExporter :: exporter where
  "PatreonDataExporter = \<lparr>baseUrl = ''https://www.patreon.com/api/bills'', pageSize = 100, delay = 200\<rparr>"

text \<open>
  \<^verbatim>\<open>buildApiUrl\<close>: of the query parameters, the year filter, the page offset and the page
  count vary; the others are constants of the program or of the browser and are left out.
\<close>

record api_request =
  url_base :: string
  filter_due_date_year :: int
  page_offset :: nat
  page_count :: nat

definition buildApiUrl :: "exporter \<Rightarrow> int \<Rightarrow> nat \<Rightarrow> api_request" where
  "buildApiUrl this year off =
     \<lparr>url_base = baseUrl this, filter_due_date_year = year, page_offset = off,
      page_count = pageSize this\<rparr>"

text \<open>
  What \<^verbatim>\<open>fetch\<close> can do: reject (a transport failure), or resolve to a response with a
  status, whose \<^verbatim>\<open>json()\<close> rejects or yields a document.  A document without a
  \<^verbatim>\<open>data\<close> array makes the loop body raise like a rejected \<^verbatim>\<open>json()\<close> and is
  counted with it.  \<open>meta_count\<close> is \<^verbatim>\<open>data.meta.count\<close>, \<open>None\<close> when \<^verbatim>\<open>meta\<close> or
  \<^verbatim>\<open>count\<close> is missing.
\<close>

datatype js_error = Error string | TypeError string | SyntaxError string

record page =
  data :: "resource list"
  included :: "resource list option"
  meta_count :: "nat option"

record response =
  status :: nat
  statusText :: string
  json :: "js_error + page"

definition ok :: "response \<Rightarrow> bool" where
  "ok r \<longleftrightarrow> 200 \<le> status r \<and> status r \<le> 299"

type_synonym remote = "api_request \<Rightarrow> js_error + response"

text \<open>
  The effects of \<^verbatim>\<open>fetchYearData\<close>, in the order they happen: a request, a call of
  \<^verbatim>\<open>onProgress(year, currentPage, totalPages, bills.length)\<close>, the wait between two
  requests, and the \<^verbatim>\<open>console.error\<close> line with its year, offset and error.  The
  callback is taken to return normally.
\<close>

datatype event =
    Fetch api_request
  | Progress int nat nat nat
  | Delay nat
  | ConsoleError int nat js_error

record fetch_state =
  allBills :: "resource list"
  allCampaigns :: "string \<rightharpoonup> resource"
  offset :: nat
  totalPages :: nat
  currentPage :: nat
  trace :: "event list"

type_synonym fetch_outcome = "event list \<times> (js_error + year_data)"

datatype step = Done fetch_outcome | Continue fetch_state

text \<open>
  One iteration of the \<^verbatim>\<open>while (true)\<close> loop, lines 67--110.  Every error raised inside
  the \<^verbatim>\<open>try\<close> block is logged with the year and the offset and thrown again unchanged.
\<close>

definition rethrow :: "int \<Rightarrow> fetch_state \<Rightarrow> event list \<Rightarrow> js_error \<Rightarrow> step" where
  "rethrow year st evs err = Done (evs @ [ConsoleError year (offset st) err], Inl err)"

definition fetchPage :: "exporter \<Rightarrow> remote \<Rightarrow> int \<Rightarrow> fetch_state \<Rightarrow> step" where
  "fetchPage this remote year st =
     (let request = buildApiUrl this year (offset st);
          evs = trace st @ [Fetch request]
      in case remote request of
           Inl err \<Rightarrow> rethrow year st evs err
         | Inr response \<Rightarrow>
             if \<not> ok response
             then rethrow year st evs
                    (Error (''HTTP '' @ string_of_nat (status response) @ '': '' @ statusText response))
             else case json response of
                    Inl err \<Rightarrow> rethrow year st evs err
                  | Inr d \<Rightarrow>
                      let bs = filter (\<lambda>item. res_type item = ''bill'') (data d);
                          allBills' = allBills st @ bs;
                          allCampaigns' =
                            (case included d of
                               None \<Rightarrow> allCampaigns st
                             | Some inc \<Rightarrow>
                                 foldl (\<lambda>m campaign. m(res_id campaign \<mapsto> campaign)) (allCampaigns st)
                                   (filter (\<lambda>item. res_type item = ''campaign'') inc));
                          totalPages' =
                            (case meta_count d of
                               None \<Rightarrow> totalPages st
                             | Some n \<Rightarrow>
                                 if totalPages st = 0 \<and> n \<noteq> 0
                                 then ceil_div n (pageSize this)
                                 else totalPages st);
                          currentPage' = currentPage st + 1;
                          evs' = evs @ [Progress year currentPage' totalPages' (length bs)]
                      in if length bs < pageSize this
                         then Done (evs', Inr \<lparr>bills = allBills', campaigns = allCampaigns'\<rparr>)
                         else Continue
                                \<lparr>allBills = allBills', allCampaigns = allCampaigns',
                                 offset = offset st + pageSize this, totalPages = totalPages',
                                 currentPage = currentPage',
                                 trace = evs' @ [Delay (delay this)]\<rparr>)"

text \<open>
  The loop has no bound of its own: it ends when a page is short or a request fails, and
  runs forever against a service that keeps returning full pages.  \<open>None\<close> is the run
  that never returns.
\<close>

partial_function (option) fetchLoop :: "exporter \<Rightarrow> remote \<Rightarrow> int \<Rightarrow> fetch_state \<Rightarrow> fetch_outcome option" where
  "fetchLoop this remote year st =
     (case fetchPage this remote year st of
        Done r \<Rightarrow> Some r
      | Continue st' \<Rightarrow> fetchLoop this remote year st')"

declare fetchLoop.simps [code]

definition fetchYearData :: "exporter \<Rightarrow> remote \<Rightarrow> int \<Rightarrow> fetch_outcome option" where
  "fetchYearData this remote year =
     fetchLoop this remote year
       \<lparr>allBills = [], allCampaigns = Map.empty, offset = 0, totalPages = 0, currentPage = 0,
        trace = []\<rparr>"

text \<open>
  Observers of a run: the requests it issued and how many, the lines it logged, the error
  it threw and the value it returned.
\<close>

fun isFetch :: "event \<Rightarrow> bool" where
  "isFetch (Fetch _) = True"
| "isFetch _ = False"

definition requests :: "fetch_outcome \<Rightarrow> event list" where
  "requests out = filter isFetch (fst out)"

definition requestCount :: "fetch_outcome \<Rightarrow> nat" where
  "requestCount out = length (requests out)"

fun isConsoleError :: "event \<Rightarrow> bool" where
  "isConsoleError (ConsoleError _ _ _) = True"
| "isConsoleError _ = False"

definition logged :: "fetch_outcome \<Rightarrow> event list" where
  "logged out = filter isConsoleError (fst out)"

definition thrown :: "fetch_outcome \<Rightarrow> js_error option" where
  "thrown out = (case snd out of Inl err \<Rightarrow> Some err | Inr _ \<Rightarrow> None)"

definition returned :: "fetch_outcome \<Rightarrow> year_data option" where
  "returned out = (case snd out of Inl _ \<Rightarrow> None | Inr r \<Rightarrow> Some r)"

text \<open>
  What the service answers at an offset: a successful response whose document holds
  a given list of records.
\<close>

definition pageAt :: "exporter \<Rightarrow> remote \<Rightarrow> int \<Rightarrow> nat \<Rightarrow> page option" where
  "pageAt this remote year off =
     (case remote (buildApiUrl this year off) of
        Inl _ \<Rightarrow> None
      | Inr response \<Rightarrow>
          if ok response then (case json response of Inl _ \<Rightarrow> None | Inr d \<Rightarrow> Some d) else None)"

definition billsOf :: "page \<Rightarrow> resource list" where
  "billsOf d = filter (\<lambda>item. res_type item = ''bill'') (data d)"

definition fullPageAt :: "exporter \<Rightarrow> remote \<Rightarrow> int \<Rightarrow> nat \<Rightarrow> bool" where
  "fullPageAt this remote year off =
     (case pageAt this remote year off of
        None \<Rightarrow> False
      | Some d \<Rightarrow> length (data d) = pageSize this \<and> billsOf d = data d)"

definition shortPageAt :: "exporter \<Rightarrow> remote \<Rightarrow> int \<Rightarrow> nat \<Rightarrow> bool" where
  "shortPageAt this remote year off =
     (case pageAt this remote year off of
        None \<Rightarrow> False
      | Some d \<Rightarrow> length (data d) < pageSize this \<and> billsOf d = data d)"

definition failsAt :: "exporter \<Rightarrow> remote \<Rightarrow> int \<Rightarrow> nat \<Rightarrow> js_error option" where
  "failsAt this remote year off =
     (case remote (buildApiUrl this year off) of
        Inl err \<Rightarrow> Some err
      | Inr response \<Rightarrow>
          if ok response then None
          else Some (Error (''HTTP '' @ string_of_nat (status response) @ '': '' @ statusText response)))"

text \<open>
  The bills of the page at an offset (none when the request does not yield a page), whether
  the loop goes on or stops after that page, the bills of \<open>k\<close> consecutive pages, and the
  number of records of a page and of the pages \<open>0\<close> to \<open>n\<close>.
\<close>

definition billsAt :: "exporter \<Rightarrow> remote \<Rightarrow> int \<Rightarrow> nat \<Rightarrow> resource list" where
  "billsAt this remote year off =
     (case pageAt this remote year off of None \<Rightarrow> [] | Some d \<Rightarrow> billsOf d)"

definition continuesAt :: "exporter \<Rightarrow> remote \<Rightarrow> int \<Rightarrow> nat \<Rightarrow> bool" where
  "continuesAt this remote year off =
     (case pageAt this remote year off of
        None \<Rightarrow> False
      | Some d \<Rightarrow> pageSize this \<le> length (billsOf d))"

definition stopsAt :: "exporter \<Rightarrow> remote \<Rightarrow> int \<Rightarrow> nat \<Rightarrow> bool" where
  "stopsAt this remote year off =
     (case pageAt this remote year off of
        None \<Rightarrow> False
      | Some d \<Rightarrow> length (billsOf d) < pageSize this)"

fun billsFrom :: "exporter \<Rightarrow> remote \<Rightarrow> int \<Rightarrow> nat \<Rightarrow> nat \<Rightarrow> resource list" where
  "billsFrom this remote year off 0 = []"
| "billsFrom this remote year off (Suc k) =
     billsAt this remote year off @ billsFrom this remote year (off + pageSize this) k"

definition recordsAt :: "exporter \<Rightarrow> remote \<Rightarrow> int \<Rightarrow> nat \<Rightarrow> nat" where
  "recordsAt this remote year off =
     (case pageAt this remote year off of None \<Rightarrow> 0 | Some d \<Rightarrow> length (data d))"

definition totalRecords :: "exporter \<Rightarrow> remote \<Rightarrow> int \<Rightarrow> nat \<Rightarrow> nat" where
  "totalRecords this remote year n =
     sum_list (map (\<lambda>i. recordsAt this remote year (i * pageSize this)) [0..<Suc n])"

definition billCount :: "fetch_outcome \<Rightarrow> nat" where
  "billCount out = (case snd out of Inl _ \<Rightarrow> 0 | Inr r \<Rightarrow> length (bills r))"

section \<open>Reporter: \<^verbatim>\<open>formatCurrency\<close> and \<^verbatim>\<open>generateCSV\<close>\<close>

text \<open>
  \<^verbatim>\<open>Intl.NumberFormat\<close> belongs to the browser.  It is a parameter of the model: for a
  currency code the constructor either throws (\<open>None\<close>) or yields a formatter with the
  value of the \<^verbatim>\<open>fraction\<close> part of \<^verbatim>\<open>formatToParts(1)\<close>, if there is one, and its
  \<^verbatim>\<open>format\<close> function.  The quotient handed to \<^verbatim>\<open>format\<close> is kept exact.
\<close>

record number_format =
  fraction :: "string option"
  format :: "rat \<Rightarrow> string"

type_synonym intl = "string \<Rightarrow> number_format option"

text \<open>
  Lines 11--39.  The result is the pair of the \<^verbatim>\<open>console.warn\<close> lines written and the
  string returned.
\<close>

definition formatCurrency :: "intl \<Rightarrow> int \<Rightarrow> string \<Rightarrow> string list \<times> string" where
  "formatCurrency NumberFormat cents cur =
     (case NumberFormat cur of
        Some formatter \<Rightarrow>
          let divisor = (case fraction formatter of None \<Rightarrow> 1 | Some v \<Rightarrow> 10 ^ length v);
              amount = of_int cents / of_int divisor
          in ([], format formatter amount)
      | None \<Rightarrow>
          ([''Unknown currency '' @ cur @ '', treating as minor unit currency''],
           cur @ '' '' @ toFixed2 cents))"

text \<open>Lines 169--210.  \<open>ranked\<close> is an element of \<^verbatim>\<open>creatorsArray\<close>.\<close>

record ranked = creator +
  totalAmountCents :: int

definition yearSpend :: "(string \<times> int) list \<Rightarrow> int \<Rightarrow> int" where
  "yearSpend ys year = or_zero (map_of ys (toString year))"

definition sortedYears :: "int list \<Rightarrow> int list" where
  "sortedYears years = js_sort (\<lambda>a b. b - a) years"

definition headers :: "int list \<Rightarrow> string list" where
  "headers years =
     [''Creator'', ''Currency'', ''URL'', ''Total Spend''] @
     map (\<lambda>year. ''Total Spend '' @ toString year) (sortedYears years)"

definition withTotal :: "int list \<Rightarrow> creator \<Rightarrow> ranked" where
  "withTotal years c =
     \<lparr>creator_name = creator_name c, yearlySpends = yearlySpends c,
      creator_currency = creator_currency c, creator_url = creator_url c,
      totalAmountCents = foldl (\<lambda>total year. total + yearSpend (yearlySpends c) year) 0 years\<rparr>"

definition creatorsArray :: "creator_map \<Rightarrow> int list \<Rightarrow> ranked list" where
  "creatorsArray creatorData years = map (withTotal years) (map snd creatorData)"

definition sortedCreators :: "creator_map \<Rightarrow> int list \<Rightarrow> ranked list" where
  "sortedCreators creatorData years =
     js_sort (\<lambda>a b. totalAmountCents b - totalAmountCents a) (creatorsArray creatorData years)"

definition csvRow :: "intl \<Rightarrow> int list \<Rightarrow> ranked \<Rightarrow> string list" where
  "csvRow NumberFormat ys c =
     [creator_name c, creator_currency c,
      (case creator_url c of None \<Rightarrow> [] | Some u \<Rightarrow> u),
      snd (formatCurrency NumberFormat (totalAmountCents c) (creator_currency c))] @
     map (\<lambda>year. snd (formatCurrency NumberFormat (yearSpend (yearlySpends c) year) (creator_currency c)))
       ys"

definition rows :: "intl \<Rightarrow> creator_map \<Rightarrow> int list \<Rightarrow> string list list" where
  "rows NumberFormat creatorData years =
     headers years # map (csvRow NumberFormat (sortedYears years)) (sortedCreators creatorData years)"

definition generateCSV :: "intl \<Rightarrow> creator_map \<Rightarrow> int list \<Rightarrow> string" where
  "generateCSV NumberFormat creatorData years =
     join [CHR 0x0A] (map (join '','') (rows NumberFormat creatorData years))"

text \<open>The cells of a row after the four leading columns: one per requested year.\<close>

definition yearColumns :: "string list \<Rightarrow> string list" where
  "yearColumns row = drop 4 row"

section \<open>Sample inputs\<close>

text \<open>Campaigns and bills used in the concrete instances below.\<close>

definition campaignNamed :: "string \<Rightarrow> string \<Rightarrow> string \<Rightarrow> resource" where
  "campaignNamed i n u =
     \<lparr>res_type = ''campaign'', res_id = i, amount_cents = None, vat_charge_amount_cents = None,
      currency = [], name = n, url = Some u, campaign_ref = None\<rparr>"

definition billTo :: "string \<Rightarrow> int \<Rightarrow> int option \<Rightarrow> string \<Rightarrow> resource" where
  "billTo ref base tax cur =
     \<lparr>res_type = ''bill'', res_id = ''b'', amount_cents = Some base,
      vat_charge_amount_cents = tax, currency = cur, name = [], url = None,
      campaign_ref = Some ref\<rparr>"

definition alice :: resource where
  "alice = campaignNamed ''c1'' ''Alice'' ''https://www.patreon.com/alice''"

definition bob :: resource where
  "bob = campaignNamed ''c2'' ''Bob'' ''https://www.patreon.com/bob''"

definition aliceMoved :: resource where
  "aliceMoved = campaignNamed ''c3'' ''Alice'' ''https://www.patreon.com/alice2''"

definition sampleCampaigns :: "string \<rightharpoonup> resource" where
  "sampleCampaigns = map_of [(''c1'', alice), (''c2'', bob), (''c3'', aliceMoved)]"

definition yearOf :: "string \<Rightarrow> resource list \<Rightarrow> string \<times> year_data" where
  "yearOf y bs = (y, \<lparr>bills = bs, campaigns = sampleCampaigns\<rparr>)"

definition creatorWith :: "string \<Rightarrow> int \<Rightarrow> string \<times> creator" where
  "creatorWith n t =
     (n, \<lparr>creator_name = n, yearlySpends = [(''2023'', t)], creator_currency = ''USD'',
          creator_url = None\<rparr>)"

text \<open>A browser whose \<^verbatim>\<open>Intl.NumberFormat\<close> rejects every currency code.\<close>

definition noIntl :: intl where
  "noIntl cur = None"

text \<open>
  Services: every answer is a successful response with the given records and nothing else.
  The first holds exactly one page of bills; the second one page and a half; the third
  answers the second request with 99 bills and one campaign record and every other
  request with a full page; the fourth answers every request with status 500; the fifth
  serves one full page and then status 500.
\<close>

definition okPage :: "resource list \<Rightarrow> js_error + response" where
  "okPage items =
     Inr \<lparr>status = 200, statusText = ''OK'',
          json = Inr \<lparr>data = items, included = None, meta_count = None\<rparr>\<rparr>"

definition serverError :: "js_error + response" where
  "serverError =
     Inr \<lparr>status = 500, statusText = ''Internal Server Error'', json = Inl (SyntaxError [])\<rparr>"

definition sampleBill :: resource where
  "sampleBill = billTo ''c1'' 500 None ''USD''"

definition remoteExactlyOnePage :: remote where
  "remoteExactlyOnePage request =
     okPage (if page_offset request = 0 then replicate 100 sampleBill else [])"

definition remotePageAndHalf :: remote where
  "remotePageAndHalf request =
     okPage (if page_offset request = 0 then replicate 100 sampleBill else replicate 50 sampleBill)"

definition remoteMixedPage :: remote where
  "remoteMixedPage request =
     okPage (if page_offset request = 100 then alice # replicate 99 sampleBill
             else replicate 100 sampleBill)"

definition remoteDown :: remote where
  "remoteDown request = serverError"

definition remoteFailsSecond :: remote where
  "remoteFailsSecond request =
     (if page_offset request = 0 then okPage (replicate 100 sampleBill) else serverError)"

section \<open>Properties of the aggregator\<close>

lemma processBill_unresolved: "resolve cs b = None \<Longrightarrow> processBill y cs cd b = cd"
  by (simp add: processBill_def)

lemma map_of_processBill:
  assumes "resolve cs b = Some camp"
  shows "map_of (processBill y cs cd b) n =
     (if n = name camp then
        Some (case map_of cd n of
           None \<Rightarrow> \<lparr>creator_name = n, yearlySpends = [(y, billAmountCents b)],
                     creator_currency = currency b, creator_url = url camp\<rparr>
         | Some c \<Rightarrow> c\<lparr>yearlySpends := AList.update y (or_zero (map_of (yearlySpends c) y) + billAmountCents b) (yearlySpends c)\<rparr>)
      else map_of cd n)"
  using assms
  by (auto simp: processBill_def Let_def map_of_map_entry or_zero_def map_add_def split: option.splits)

lemma spend_processBill:
  assumes "resolve cs b = Some camp"
  shows "spend (processBill y cs cd b) n y' =
     (if n = name camp \<and> y' = y then Some (or_zero (spend cd n y) + billAmountCents b)
      else spend cd n y')"
  using assms
  by (auto simp: spend_def map_of_processBill update_conv' or_zero_def split: option.splits)

lemma sum_snd_update:
  "sum_list (map snd (AList.update k v al)) = sum_list (map snd al) - or_zero (map_of al k) + (v::int)"
  by (induction al) (auto simp: or_zero_def)

lemma sum_map_entry:
  "map_of al k = Some c \<Longrightarrow>
   sum_list (map (\<lambda>e. g (snd e)) (AList.map_entry k f al)) =
   sum_list (map (\<lambda>e. g (snd e)) al) - g c + (g (f c) :: int)"
  by (induction al) (auto split: if_splits)

lemma map_entry_absent: "map_of al k = None \<Longrightarrow> AList.map_entry k f al = al"
  by (induction al) (auto split: if_splits)

lemma map_entry_append_new:
  "map_of al k = None \<Longrightarrow> AList.map_entry k f (al @ [(k, v)]) = al @ [(k, f v)]"
  by (induction al) (auto split: if_splits)

lemma grandTotal_processBill:
  assumes "resolve cs b = Some camp"
  shows "grandTotal (processBill y cs cd b) = grandTotal cd + billAmountCents b"
proof (cases "map_of cd (name camp)")
  case None
  then show ?thesis using assms
    by (simp add: processBill_def Let_def map_entry_append_new grandTotal_def yearTotal_def or_zero_def)
next
  case (Some c)
  let ?f = "\<lambda>c. c\<lparr>yearlySpends :=
              AList.update y (or_zero (map_of (yearlySpends c) y) + billAmountCents b) (yearlySpends c)\<rparr>"
  have step: "processBill y cs cd b = AList.map_entry (name camp) ?f cd"
    using Some assms by (simp add: processBill_def Let_def)
  have "yearTotal (?f c) = yearTotal c + billAmountCents b"
    by (simp add: yearTotal_def sum_snd_update)
  then show ?thesis
    unfolding step grandTotal_def using sum_map_entry [OF Some, of yearTotal ?f] by simp
qed

lemma grandTotal_step:
  "grandTotal (processBill y cs cd b) =
   grandTotal cd + (if resolve cs b = None then 0 else billAmountCents b)"
  by (cases "resolve cs b") (simp_all add: processBill_unresolved grandTotal_processBill)

lemma grandTotal_foldl_processBill:
  "grandTotal (foldl (processBill y cs) cd bs) =
   grandTotal cd + sum_list (map billAmountCents (filter (\<lambda>b. resolve cs b \<noteq> None) bs))"
  by (induction bs arbitrary: cd) (simp_all add: grandTotal_step)

lemma grandTotal_foldl_processYear:
  "grandTotal (foldl processYear cd es) = grandTotal cd + sum_list (map billAmountCents (includedBills es))"
  by (induction es arbitrary: cd)
     (simp_all add: includedBills_def processYear_def grandTotal_foldl_processBill)

lemma grandTotal_processBillsData:
  "grandTotal (processBillsData es) = sum_list (map billAmountCents (includedBills es))"
proof -
  have "grandTotal [] = 0" by (simp add: grandTotal_def)
  then show ?thesis by (simp add: processBillsData_def grandTotal_foldl_processYear)
qed

lemma foldl_processBill_skip:
  "resolve cs b = None \<Longrightarrow>
   foldl (processBill y cs) cd (bs1 @ b # bs2) = foldl (processBill y cs) cd (bs1 @ bs2)"
  by (simp add: processBill_unresolved)


lemma spend_foldl_processBill:
  "spend (foldl (processBill y cs) cd bs) n y' =
     (if y' = y \<and> billAmounts cs n bs \<noteq> []
      then Some (or_zero (spend cd n y) + sum_list (billAmounts cs n bs))
      else spend cd n y')"
proof (induction bs arbitrary: cd)
  case Nil
  then show ?case by (simp add: billAmounts_def)
next
  case (Cons b bs)
  show ?case
  proof (cases "resolve cs b")
    case None
    then show ?thesis using Cons.IH [of cd]
      by (simp add: processBill_unresolved billAmounts_def)
  next
    case (Some camp)
    then show ?thesis using Cons.IH [of "processBill y cs cd b"]
      by (auto simp: spend_processBill billAmounts_def or_zero_def)
  qed
qed

lemma billAmounts_perm:
  assumes "mset bs' = mset bs"
  shows "sum_list (billAmounts cs n bs') = sum_list (billAmounts cs n bs)"
    and "billAmounts cs n bs' = [] \<longleftrightarrow> billAmounts cs n bs = []"
proof -
  have m: "mset (billAmounts cs n bs') = mset (billAmounts cs n bs)"
    using assms by (simp add: billAmounts_def)
  show "sum_list (billAmounts cs n bs') = sum_list (billAmounts cs n bs)"
    using m by (metis sum_mset_sum_list)
  show "billAmounts cs n bs' = [] \<longleftrightarrow> billAmounts cs n bs = []"
    using m by (metis mset_zero_iff)
qed

lemma spend_processYear_perm:
  assumes "mset bs' = mset bs"
  shows "spend (processYear cd (y, \<lparr>bills = bs', campaigns = cs\<rparr>)) =
         spend (processYear cd (y, \<lparr>bills = bs, campaigns = cs\<rparr>))"
  by (intro ext) (simp add: processYear_def spend_foldl_processBill billAmounts_perm [OF assms])

lemma spend_processBill_cong:
  assumes "spend cd = spend cd'"
  shows "spend (processBill y cs cd b) = spend (processBill y cs cd' b)"
proof (cases "resolve cs b")
  case None
  then show ?thesis using assms by (simp add: processBill_unresolved)
next
  case (Some camp)
  then show ?thesis using assms by (intro ext) (simp add: spend_processBill)
qed

lemma spend_foldl_processBill_cong:
  "spend cd = spend cd' \<Longrightarrow>
   spend (foldl (processBill y cs) cd bs) = spend (foldl (processBill y cs) cd' bs)"
proof (induction bs arbitrary: cd cd')
  case Nil
  then show ?case by simp
next
  case (Cons b bs)
  show ?case
    unfolding foldl_Cons by (rule Cons.IH) (rule spend_processBill_cong [OF Cons.prems])
qed

lemma spend_foldl_processYear_cong:
  "spend cd = spend cd' \<Longrightarrow> spend (foldl processYear cd es) = spend (foldl processYear cd' es)"
proof (induction es arbitrary: cd cd')
  case Nil
  then show ?case by simp
next
  case (Cons e es)
  have "spend (processYear cd e) = spend (processYear cd' e)"
    unfolding processYear_def by (rule spend_foldl_processBill_cong [OF Cons.prems])
  then show ?case
    unfolding foldl_Cons by (rule Cons.IH)
qed

lemma identity_processBill:
  "map_option storedIdentity (map_of (processBill y cs cd b) n) =
     (case map_of cd n of
        Some cr \<Rightarrow> Some (storedIdentity cr)
      | None \<Rightarrow> (case resolve cs b of
                   None \<Rightarrow> None
                 | Some camp \<Rightarrow> if name camp = n then Some (currency b, url camp) else None))"
proof (cases "resolve cs b")
  case None
  then show ?thesis by (simp add: processBill_unresolved split: option.splits)
next
  case (Some camp)
  then show ?thesis
    by (auto simp: map_of_processBill storedIdentity_def split: option.splits)
qed

lemma map_filter_Cons:
  "List.map_filter h (x # xs) = (case h x of None \<Rightarrow> List.map_filter h xs | Some v \<Rightarrow> v # List.map_filter h xs)"
  by (simp add: List.map_filter_simps)

lemma identity_foldl_processBill:
  "map_option storedIdentity (map_of (foldl (processBill y cs) cd bs) n) =
     (case map_of cd n of
        Some cr \<Rightarrow> Some (storedIdentity cr)
      | None \<Rightarrow> map_option (\<lambda>bc. (currency (fst bc), url (snd bc)))
          (find (\<lambda>bc. name (snd bc) = n)
             (List.map_filter (\<lambda>b. map_option (Pair b) (resolve cs b)) bs)))"
proof (induction bs arbitrary: cd)
  case Nil
  then show ?case by (simp add: List.map_filter_simps split: option.splits)
next
  case (Cons b bs)
  note step = identity_processBill [of y cs cd b n]
  note IH = Cons.IH [of "processBill y cs cd b"]
  show ?case
  proof (cases "map_of cd n")
    case (Some cr)
    with step obtain cr' where "map_of (processBill y cs cd b) n = Some cr'"
      and "storedIdentity cr' = storedIdentity cr"
      by auto
    with IH Some show ?thesis by simp
  next
    case None
    show ?thesis
    proof (cases "resolve cs b")
      case nores: None
      with None IH show ?thesis
        by (simp add: processBill_unresolved map_filter_Cons)
    next
      case (Some camp)
      show ?thesis
      proof (cases "name camp = n")
        case True
        with step None Some obtain cr' where "map_of (processBill y cs cd b) n = Some cr'"
          and "storedIdentity cr' = (currency b, url camp)"
          by auto
        with IH None Some True show ?thesis by (simp add: map_filter_Cons)
      next
        case False
        with step None Some have "map_of (processBill y cs cd b) n = None"
          by simp
        with IH None Some False show ?thesis by (simp add: map_filter_Cons)
      qed
    qed
  qed
qed

lemma find_append_opt:
  "find P (xs @ ys) = (case find P xs of None \<Rightarrow> find P ys | Some x \<Rightarrow> Some x)"
  by (induction xs) auto

lemma firstBillFor_Cons:
  "firstBillFor n (e # es) =
     (case find (\<lambda>bc. name (snd bc) = n)
             (List.map_filter (\<lambda>b. map_option (Pair b) (resolve (campaigns (snd e)) b)) (bills (snd e))) of
        None \<Rightarrow> firstBillFor n es
      | Some bc \<Rightarrow> Some bc)"
  by (simp add: firstBillFor_def resolvedBills_def find_append_opt split: option.splits)

lemma identity_foldl_processYear:
  "map_option storedIdentity (map_of (foldl processYear cd es) n) =
     (case map_of cd n of
        Some cr \<Rightarrow> Some (storedIdentity cr)
      | None \<Rightarrow> map_option (\<lambda>bc. (currency (fst bc), url (snd bc))) (firstBillFor n es))"
proof (induction es arbitrary: cd)
  case Nil
  then show ?case by (simp add: firstBillFor_def resolvedBills_def split: option.splits)
next
  case (Cons e es)
  note step = identity_foldl_processBill [of "fst e" "campaigns (snd e)" cd "bills (snd e)" n,
      folded processYear_def]
  note IH = Cons.IH [of "processYear cd e"]
  show ?case
  proof (cases "map_of cd n")
    case (Some cr)
    with step obtain cr' where "map_of (processYear cd e) n = Some cr'"
      and "storedIdentity cr' = storedIdentity cr"
      by auto
    with IH Some show ?thesis by simp
  next
    case None
    show ?thesis
    proof (cases "find (\<lambda>bc. name (snd bc) = n)
             (List.map_filter (\<lambda>b. map_option (Pair b) (resolve (campaigns (snd e)) b)) (bills (snd e)))")
      case nofind: None
      with step None have "map_of (processYear cd e) n = None" by simp
      with IH None nofind show ?thesis by (simp add: firstBillFor_Cons)
    next
      case (Some bc)
      with step None obtain cr' where "map_of (processYear cd e) n = Some cr'"
        and "storedIdentity cr' = (currency (fst bc), url (snd bc))"
        by auto
      with IH None Some show ?thesis by (simp add: firstBillFor_Cons)
    qed
  qed
qed

text \<open>
  Claim C8.  A bill that resolves to a campaign and has a base amount adds to its
  creator's total for the year exactly the base amount plus the tax amount, where an
  absent tax amount counts as 0.  In particular a bill with base 100 and no tax amount
  adds exactly 100.
\<close>

theorem combined_amount_base_plus_tax:
  assumes "resolve cs bill = Some campaign" and "amount_cents bill = Some base"
  shows "billAmountCents bill =
           base + (case vat_charge_amount_cents bill of None \<Rightarrow> 0 | Some tax \<Rightarrow> tax) \<and>
         spend (processBill year cs creatorData bill) (name campaign) year =
           Some (or_zero (spend creatorData (name campaign) year) + base +
                 (case vat_charge_amount_cents bill of None \<Rightarrow> 0 | Some tax \<Rightarrow> tax))"
  using assms
  by (simp add: spend_processBill billAmountCents_def or_zero_def split: option.splits)

theorem combined_amount_base_plus_tax_witness:
  "resolve sampleCampaigns (billTo ''c1'' 100 None ''USD'') = Some alice \<and>
   amount_cents (billTo ''c1'' 100 None ''USD'') = Some 100 \<and>
   billAmountCents (billTo ''c1'' 100 None ''USD'') = 100 \<and>
   spend (processBill ''2024'' sampleCampaigns [] (billTo ''c1'' 100 None ''USD'')) ''Alice'' ''2024''
     = Some 100"
proof -
  have r: "resolve sampleCampaigns (billTo ''c1'' 100 None ''USD'') = Some alice"
    by (simp add: resolve_def sampleCampaigns_def billTo_def)
  have a: "amount_cents (billTo ''c1'' 100 None ''USD'') = Some 100"
    by (simp add: billTo_def)
  have n: "name alice = ''Alice''"
    by (simp add: alice_def campaignNamed_def)
  have v: "vat_charge_amount_cents (billTo ''c1'' 100 None ''USD'') = None"
    by (simp add: billTo_def)
  from combined_amount_base_plus_tax [OF r a, of "''2024''" "[]"] r a show ?thesis
    by (simp add: n v spend_def or_zero_def)
qed

text \<open>
  Claim C2.  For every input of the aggregator, the sum of all per-creator per-year
  totals of the result equals the sum of the combined amounts of the bills that resolve
  to a campaign; and a bill that does not resolve, wherever it stands in its year, is
  skipped: the result is the one obtained without it.  The function is total, so no
  input makes it fail.
\<close>

theorem unresolved_bills_skipped_totals_balance:
  "grandTotal (processBillsData billsByYear) =
     sum_list (map billAmountCents (includedBills billsByYear)) \<and>
   (resolve cs b = None \<longrightarrow>
      processBillsData (es1 @ (y, \<lparr>bills = bs1 @ b # bs2, campaigns = cs\<rparr>) # es2) =
      processBillsData (es1 @ (y, \<lparr>bills = bs1 @ bs2, campaigns = cs\<rparr>) # es2))"
proof (intro conjI impI)
  show "grandTotal (processBillsData billsByYear) =
          sum_list (map billAmountCents (includedBills billsByYear))"
    by (rule grandTotal_processBillsData)
next
  assume "resolve cs b = None"
  then show "processBillsData (es1 @ (y, \<lparr>bills = bs1 @ b # bs2, campaigns = cs\<rparr>) # es2) =
      processBillsData (es1 @ (y, \<lparr>bills = bs1 @ bs2, campaigns = cs\<rparr>) # es2)"
    by (simp add: processBillsData_def processYear_def processBill_unresolved)
qed

theorem unresolved_bills_skipped_totals_balance_witness:
  "resolve sampleCampaigns (billTo ''c9'' 700 None ''USD'') = None \<and>
   grandTotal (processBillsData
     [yearOf ''2024'' [billTo ''c1'' 1000 (Some 200) ''USD'', billTo ''c9'' 700 None ''USD'',
                       billTo ''c2'' 300 None ''EUR'']]) = 1500 \<and>
   processBillsData
     ([] @ (''2024'', \<lparr>bills = [billTo ''c1'' 1000 (Some 200) ''USD''] @
                               billTo ''c9'' 700 None ''USD'' # [billTo ''c2'' 300 None ''EUR''],
                        campaigns = sampleCampaigns\<rparr>) # []) =
   processBillsData
     ([] @ (''2024'', \<lparr>bills = [billTo ''c1'' 1000 (Some 200) ''USD''] @
                               [billTo ''c2'' 300 None ''EUR''],
                        campaigns = sampleCampaigns\<rparr>) # [])"
proof -
  have r: "resolve sampleCampaigns (billTo ''c9'' 700 None ''USD'') = None"
    by (simp add: resolve_def sampleCampaigns_def billTo_def)
  have i: "sum_list (map billAmountCents (includedBills
     [yearOf ''2024'' [billTo ''c1'' 1000 (Some 200) ''USD'', billTo ''c9'' 700 None ''USD'',
                       billTo ''c2'' 300 None ''EUR'']])) = 1500"
    by (simp add: includedBills_def yearOf_def resolve_def sampleCampaigns_def billTo_def
        billAmountCents_def or_zero_def)
  from unresolved_bills_skipped_totals_balance
    [of "[yearOf ''2024'' [billTo ''c1'' 1000 (Some 200) ''USD'', billTo ''c9'' 700 None ''USD'',
                       billTo ''c2'' 300 None ''EUR'']]"
        sampleCampaigns "billTo ''c9'' 700 None ''USD''" "[]" "''2024''"
        "[billTo ''c1'' 1000 (Some 200) ''USD'']" "[billTo ''c2'' 300 None ''EUR'']" "[]"]
    r i
  show ?thesis by simp
qed

text \<open>
  Claim C3.  Permuting the bills of one year leaves every per-creator per-year total of
  the aggregate as it was (the totals are sums of integers).
\<close>

theorem aggregation_order_independent:
  assumes "mset bs' = mset bs"
  shows "spend (processBillsData (es1 @ (y, \<lparr>bills = bs', campaigns = cs\<rparr>) # es2)) =
         spend (processBillsData (es1 @ (y, \<lparr>bills = bs, campaigns = cs\<rparr>) # es2))"
  unfolding processBillsData_def foldl_append foldl_Cons
  by (rule spend_foldl_processYear_cong) (rule spend_processYear_perm [OF assms])

theorem aggregation_order_independent_witness:
  "mset [billTo ''c2'' 300 None ''EUR'', billTo ''c9'' 700 None ''USD'', billTo ''c1'' 1000 (Some 200) ''USD'',
         billTo ''c2'' 50 None ''EUR''] =
   mset [billTo ''c1'' 1000 (Some 200) ''USD'', billTo ''c2'' 50 None ''EUR'', billTo ''c9'' 700 None ''USD'',
         billTo ''c2'' 300 None ''EUR''] \<and>
   spend (processBillsData
     ([yearOf ''2023'' [billTo ''c1'' 500 None ''USD'']] @
      (''2024'', \<lparr>bills = [billTo ''c2'' 300 None ''EUR'', billTo ''c9'' 700 None ''USD'',
                            billTo ''c1'' 1000 (Some 200) ''USD'', billTo ''c2'' 50 None ''EUR''],
                  campaigns = sampleCampaigns\<rparr>) # [])) =
   spend (processBillsData
     ([yearOf ''2023'' [billTo ''c1'' 500 None ''USD'']] @
      (''2024'', \<lparr>bills = [billTo ''c1'' 1000 (Some 200) ''USD'', billTo ''c2'' 50 None ''EUR'',
                            billTo ''c9'' 700 None ''USD'', billTo ''c2'' 300 None ''EUR''],
                  campaigns = sampleCampaigns\<rparr>) # []))"
proof -
  have m: "mset [billTo ''c2'' 300 None ''EUR'', billTo ''c9'' 700 None ''USD'',
                 billTo ''c1'' 1000 (Some 200) ''USD'', billTo ''c2'' 50 None ''EUR''] =
           mset [billTo ''c1'' 1000 (Some 200) ''USD'', billTo ''c2'' 50 None ''EUR'',
                 billTo ''c9'' 700 None ''USD'', billTo ''c2'' 300 None ''EUR'']"
    by (simp add: ac_simps)
  from aggregation_order_independent [OF m] m show ?thesis
    by blast
qed

text \<open>
  Claim C9.  The currency and the URL stored for a creator name are the currency of the
  first bill processed that resolves to a campaign of that name and the URL of that
  campaign; whatever is processed afterwards leaves both as they are.
\<close>

theorem first_seen_currency_and_url_win:
  assumes "map_of (processBillsData es) n = Some cr"
  shows "map_option (\<lambda>bc. (currency (fst bc), url (snd bc))) (firstBillFor n es) =
           Some (creator_currency cr, creator_url cr) \<and>
         map_option storedIdentity (map_of (processBillsData (es @ es')) n) =
           Some (creator_currency cr, creator_url cr)"
proof
  show "map_option (\<lambda>bc. (currency (fst bc), url (snd bc))) (firstBillFor n es) =
          Some (creator_currency cr, creator_url cr)"
    using assms identity_foldl_processYear [of "[]" es n]
    by (simp add: processBillsData_def storedIdentity_def)
  show "map_option storedIdentity (map_of (processBillsData (es @ es')) n) =
          Some (creator_currency cr, creator_url cr)"
    using assms identity_foldl_processYear [of "processBillsData es" es' n]
    by (simp add: processBillsData_def storedIdentity_def)
qed

theorem first_seen_currency_and_url_win_witness:
  "map_of (processBillsData [yearOf ''2023'' [billTo ''c1'' 500 None ''USD'']]) ''Alice'' =
     Some \<lparr>creator_name = ''Alice'', yearlySpends = [(''2023'', 500)], creator_currency = ''USD'',
           creator_url = Some ''https://www.patreon.com/alice''\<rparr> \<and>
   map_option storedIdentity
     (map_of (processBillsData ([yearOf ''2023'' [billTo ''c1'' 500 None ''USD'']] @
                                [yearOf ''2024'' [billTo ''c3'' 900 None ''EUR'']])) ''Alice'') =
     Some (''USD'', Some ''https://www.patreon.com/alice'')"
proof -
  have h: "map_of (processBillsData [yearOf ''2023'' [billTo ''c1'' 500 None ''USD'']]) ''Alice'' =
     Some \<lparr>creator_name = ''Alice'', yearlySpends = [(''2023'', 500)], creator_currency = ''USD'',
           creator_url = Some ''https://www.patreon.com/alice''\<rparr>"
    by (simp add: processBillsData_def processYear_def yearOf_def processBill_def resolve_def
        sampleCampaigns_def billTo_def alice_def campaignNamed_def billAmountCents_def or_zero_def
        Let_def)
  from first_seen_currency_and_url_win [OF h, of "[yearOf ''2024'' [billTo ''c3'' 900 None ''EUR'']]"] h
  show ?thesis by simp
qed

section \<open>Properties of the fetcher\<close>

lemma pageAt_SomeD:
  assumes "pageAt this remote year off = Some d"
  obtains response where "remote (buildApiUrl this year off) = Inr response"
    and "ok response" and "json response = Inr d"
  using assms by (auto simp: pageAt_def split: sum.splits if_splits)

lemma fetchPage_fails:
  assumes "failsAt this remote year (offset st) = Some err"
  shows "fetchPage this remote year st =
           Done (trace st @ [Fetch (buildApiUrl this year (offset st)), ConsoleError year (offset st) err],
                 Inl err)"
proof (cases "remote (buildApiUrl this year (offset st))")
  case (Inl e)
  then show ?thesis using assms by (simp add: failsAt_def fetchPage_def rethrow_def Let_def)
next
  case (Inr response)
  then show ?thesis using assms
    by (simp add: failsAt_def fetchPage_def rethrow_def Let_def split: if_splits)
qed

lemma fetchPage_page:
  assumes "pageAt this remote year (offset st) = Some d"
  shows "\<exists>cs t.
    fetchPage this remote year st =
      (if length (billsOf d) < pageSize this
       then Done (trace st @ [Fetch (buildApiUrl this year (offset st)),
                              Progress year (currentPage st + 1) t (length (billsOf d))],
                  Inr \<lparr>bills = allBills st @ billsOf d, campaigns = cs\<rparr>)
       else Continue
              \<lparr>allBills = allBills st @ billsOf d, allCampaigns = cs,
               offset = offset st + pageSize this, totalPages = t,
               currentPage = currentPage st + 1,
               trace = trace st @ [Fetch (buildApiUrl this year (offset st)),
                              Progress year (currentPage st + 1) t (length (billsOf d)),
                              Delay (delay this)]\<rparr>)"
proof -
  from assms obtain response where r: "remote (buildApiUrl this year (offset st)) = Inr response"
    "ok response" "json response = Inr d"
    by (rule pageAt_SomeD)
  show ?thesis
    unfolding fetchPage_def Let_def r sum.case billsOf_def [symmetric]
    using r(2) by simp
qed

lemma fetchPage_continues:
  assumes "continuesAt this remote year (offset st)"
  shows "\<exists>st'. fetchPage this remote year st = Continue st' \<and>
           offset st' = offset st + pageSize this \<and>
           allBills st' = allBills st @ billsAt this remote year (offset st) \<and>
           filter isFetch (trace st') =
             filter isFetch (trace st) @ [Fetch (buildApiUrl this year (offset st))] \<and>
           filter isConsoleError (trace st') = filter isConsoleError (trace st)"
proof -
  from assms obtain d where d: "pageAt this remote year (offset st) = Some d"
    and full: "\<not> length (billsOf d) < pageSize this"
    by (auto simp: continuesAt_def split: option.splits)
  from fetchPage_page [OF d] full show ?thesis
    by (auto simp: billsAt_def d)
qed

lemma fetchPage_stops:
  assumes "stopsAt this remote year (offset st)"
  shows "\<exists>cs t. fetchPage this remote year st =
           Done (trace st @
                   [Fetch (buildApiUrl this year (offset st)),
                    Progress year (currentPage st + 1) t (length (billsAt this remote year (offset st)))],
                 Inr \<lparr>bills = allBills st @ billsAt this remote year (offset st), campaigns = cs\<rparr>)"
proof -
  from assms obtain d where d: "pageAt this remote year (offset st) = Some d"
    and short: "length (billsOf d) < pageSize this"
    by (auto simp: stopsAt_def split: option.splits)
  from fetchPage_page [OF d] short show ?thesis
    by (auto simp: billsAt_def d)
qed

lemma fetchLoop_through:
  assumes "\<forall>i<k. continuesAt this remote year (offset st + i * pageSize this)"
  shows "\<exists>st'. fetchLoop this remote year st = fetchLoop this remote year st' \<and>
           offset st' = offset st + k * pageSize this \<and>
           allBills st' = allBills st @ billsFrom this remote year (offset st) k \<and>
           length (filter isFetch (trace st')) = length (filter isFetch (trace st)) + k \<and>
           filter isConsoleError (trace st') = filter isConsoleError (trace st)"
  using assms
proof (induction k arbitrary: st)
  case 0
  show ?case by (rule exI [of _ st]) simp
next
  case (Suc k)
  from Suc.prems have "continuesAt this remote year (offset st)"
    by (metis add.right_neutral mult_0 zero_less_Suc)
  then obtain st1 where st1: "fetchPage this remote year st = Continue st1"
    "offset st1 = offset st + pageSize this"
    "allBills st1 = allBills st @ billsAt this remote year (offset st)"
    "filter isFetch (trace st1) = filter isFetch (trace st) @ [Fetch (buildApiUrl this year (offset st))]"
    "filter isConsoleError (trace st1) = filter isConsoleError (trace st)"
    using fetchPage_continues by blast
  have loop1: "fetchLoop this remote year st = fetchLoop this remote year st1"
    by (subst fetchLoop.simps) (simp add: st1(1))
  have "\<forall>i<k. continuesAt this remote year (offset st1 + i * pageSize this)"
  proof (intro allI impI)
    fix i assume "i < k"
    then have "continuesAt this remote year (offset st + Suc i * pageSize this)"
      using Suc.prems by (metis Suc_less_eq)
    then show "continuesAt this remote year (offset st1 + i * pageSize this)"
      by (simp add: st1(2) ac_simps)
  qed
  from Suc.IH [OF this] obtain st' where st':
    "fetchLoop this remote year st1 = fetchLoop this remote year st'"
    "offset st' = offset st1 + k * pageSize this"
    "allBills st' = allBills st1 @ billsFrom this remote year (offset st1) k"
    "length (filter isFetch (trace st')) = length (filter isFetch (trace st1)) + k"
    "filter isConsoleError (trace st') = filter isConsoleError (trace st1)"
    by blast
  show ?case
    by (rule exI [of _ st']) (simp add: loop1 st' st1)
qed

lemma fetchLoop_stops:
  assumes "stopsAt this remote year (offset st)"
  shows "\<exists>out. fetchLoop this remote year st = Some out \<and>
           requestCount out = length (filter isFetch (trace st)) + 1 \<and>
           thrown out = None \<and>
           map_option bills (returned out) = Some (allBills st @ billsAt this remote year (offset st))"
proof -
  from fetchPage_stops [OF assms] obtain cs t where
    "fetchPage this remote year st =
           Done (trace st @
                   [Fetch (buildApiUrl this year (offset st)),
                    Progress year (currentPage st + 1) t (length (billsAt this remote year (offset st)))],
                 Inr \<lparr>bills = allBills st @ billsAt this remote year (offset st), campaigns = cs\<rparr>)"
    by blast
  then show ?thesis
    by (subst fetchLoop.simps) (simp add: requestCount_def requests_def thrown_def returned_def)
qed

lemma fetchLoop_fails:
  assumes "failsAt this remote year (offset st) = Some err"
  shows "fetchLoop this remote year st =
           Some (trace st @ [Fetch (buildApiUrl this year (offset st)), ConsoleError year (offset st) err],
                 Inl err)"
  by (subst fetchLoop.simps) (simp add: fetchPage_fails [OF assms])

lemma billsFrom_snoc:
  "billsFrom this remote year off (Suc k) =
   billsFrom this remote year off k @ billsAt this remote year (off + k * pageSize this)"
proof (induction k arbitrary: off)
  case 0
  show ?case by simp
next
  case (Suc k)
  have "billsFrom this remote year off (Suc (Suc k)) =
        billsAt this remote year off @ billsFrom this remote year (off + pageSize this) (Suc k)"
    by simp
  also have "\<dots> = billsAt this remote year off @
        (billsFrom this remote year (off + pageSize this) k @
         billsAt this remote year (off + pageSize this + k * pageSize this))"
    by (simp only: Suc.IH)
  also have "\<dots> = billsFrom this remote year off (Suc k) @
         billsAt this remote year (off + Suc k * pageSize this)"
    by (simp add: ac_simps)
  finally show ?case .
qed

lemma run_stops:
  assumes "\<forall>i<k. continuesAt this remote year (i * pageSize this)"
    and "stopsAt this remote year (k * pageSize this)"
  shows "\<exists>out. fetchYearData this remote year = Some out \<and>
           requestCount out = k + 1 \<and> thrown out = None \<and>
           map_option bills (returned out) = Some (billsFrom this remote year 0 (Suc k))"
proof -
  let ?st0 = "\<lparr>allBills = [], allCampaigns = Map.empty, offset = 0, totalPages = 0,
               currentPage = 0, trace = []\<rparr>"
  have "\<forall>i<k. continuesAt this remote year (offset ?st0 + i * pageSize this)"
    using assms(1) by simp
  from fetchLoop_through [OF this] obtain st' where st':
    "fetchLoop this remote year ?st0 = fetchLoop this remote year st'"
    "offset st' = k * pageSize this"
    "allBills st' = billsFrom this remote year 0 k"
    "length (filter isFetch (trace st')) = k"
    by auto
  have "stopsAt this remote year (offset st')"
    using assms(2) by (simp add: st'(2))
  from fetchLoop_stops [OF this] obtain out where out:
    "fetchLoop this remote year st' = Some out"
    "requestCount out = k + 1" "thrown out = None"
    "map_option bills (returned out) = Some (billsFrom this remote year 0 k @ billsAt this remote year (k * pageSize this))"
    by (auto simp: st')
  from billsFrom_snoc [of this remote year 0 k] out show ?thesis
    by (simp add: fetchYearData_def st'(1))
qed

lemma run_fails:
  assumes "\<forall>i<k. continuesAt this remote year (i * pageSize this)"
    and "failsAt this remote year (k * pageSize this) = Some err"
  shows "\<exists>evs. fetchYearData this remote year =
            Some (evs @ [Fetch (buildApiUrl this year (k * pageSize this)),
                         ConsoleError year (k * pageSize this) err], Inl err) \<and>
           length (filter isFetch evs) = k \<and> filter isConsoleError evs = []"
proof -
  let ?st0 = "\<lparr>allBills = [], allCampaigns = Map.empty, offset = 0, totalPages = 0,
               currentPage = 0, trace = []\<rparr>"
  have "\<forall>i<k. continuesAt this remote year (offset ?st0 + i * pageSize this)"
    using assms(1) by simp
  from fetchLoop_through [OF this] obtain st' where st':
    "fetchLoop this remote year ?st0 = fetchLoop this remote year st'"
    "offset st' = k * pageSize this"
    "length (filter isFetch (trace st')) = k"
    "filter isConsoleError (trace st') = []"
    by auto
  have "failsAt this remote year (offset st') = Some err"
    using assms(2) by (simp add: st'(2))
  from fetchLoop_fails [OF this] show ?thesis
    by (simp add: fetchYearData_def st')
qed

lemma returned_billCount:
  "map_option bills (returned out) = Some bs \<Longrightarrow> billCount out = length bs"
  by (cases "snd out") (auto simp: returned_def billCount_def)

lemma fullPageAt_D:
  assumes "fullPageAt this remote year off"
  shows "continuesAt this remote year off"
    and "length (billsAt this remote year off) = pageSize this"
    and "recordsAt this remote year off = pageSize this"
  using assms
  by (auto simp: fullPageAt_def continuesAt_def billsAt_def recordsAt_def split: option.splits)

lemma shortPageAt_D:
  assumes "shortPageAt this remote year off"
  shows "stopsAt this remote year off"
    and "length (billsAt this remote year off) = recordsAt this remote year off"
    and "recordsAt this remote year off < pageSize this"
  using assms
  by (auto simp: shortPageAt_def stopsAt_def billsAt_def recordsAt_def split: option.splits)

lemma length_billsFrom_full:
  assumes "\<forall>i<k. fullPageAt this remote year (i * pageSize this)"
  shows "length (billsFrom this remote year 0 k) = k * pageSize this"
  using assms
proof (induction k)
  case 0
  show ?case by simp
next
  case (Suc k)
  have "length (billsAt this remote year (k * pageSize this)) = pageSize this"
    using Suc.prems by (simp add: fullPageAt_D(2))
  moreover have "length (billsFrom this remote year 0 k) = k * pageSize this"
    using Suc by simp
  ultimately show ?case
    by (simp only: billsFrom_snoc length_append add_0 mult_Suc add.commute)
qed

lemma sum_list_constant_upt:
  "\<forall>i<n. f i = (c::nat) \<Longrightarrow> sum_list (map f [0..<n]) = n * c"
  by (induction n) simp_all

lemma totalRecords_full:
  assumes "\<forall>i<n. fullPageAt this remote year (i * pageSize this)"
  shows "totalRecords this remote year n =
           n * pageSize this + recordsAt this remote year (n * pageSize this)"
proof -
  have "\<forall>i<n. recordsAt this remote year (i * pageSize this) = pageSize this"
    using assms by (simp add: fullPageAt_D(3))
  from sum_list_constant_upt [OF this] show ?thesis
    by (simp add: totalRecords_def)
qed

lemma list_all_billsAt:
  "list_all (\<lambda>b. res_type b = ''bill'') (billsAt this remote year off)"
  by (auto simp: billsAt_def billsOf_def list_all_iff split: option.splits)

lemma list_all_billsFrom:
  "list_all (\<lambda>b. res_type b = ''bill'') (billsFrom this remote year off k)"
  by (induction k arbitrary: off) (simp_all add: list_all_billsAt)

lemma ceil_div_last_page:
  assumes "0 < r" and "r < p"
  shows "ceil_div (n * p + r) p = n + 1"
proof -
  have "n * p + r + p - 1 = (r - 1) + (n + 1) * p"
    using assms by (simp add: algebra_simps)
  then have "ceil_div (n * p + r) p = ((r - 1) + (n + 1) * p) div p"
    by (simp only: ceil_div_def)
  also have "\<dots> = (n + 1) + (r - 1) div p"
    using assms by (intro div_mult_self1) simp
  also have "\<dots> = n + 1"
    using assms by simp
  finally show ?thesis .
qed

text \<open>
  Claim C1, as amended.  When every page holds exactly \<open>pageSize\<close> records, all of
  them bills, except the last, which holds fewer, \<^verbatim>\<open>fetchYearData\<close> returns after one
  request per page, that is \<open>total div pageSize + 1\<close> requests for \<open>total\<close> records in
  all; this is \<open>ceil(total / pageSize)\<close> when the last page is not empty.
\<close>

theorem pagination_one_request_per_page:
  assumes "\<forall>i<n. fullPageAt this remote year (i * pageSize this)"
    and "shortPageAt this remote year (n * pageSize this)"
  shows "\<exists>out. fetchYearData this remote year = Some out \<and> thrown out = None \<and>
           billCount out = totalRecords this remote year n \<and>
           requestCount out = n + 1 \<and>
           requestCount out = totalRecords this remote year n div pageSize this + 1 \<and>
           (0 < recordsAt this remote year (n * pageSize this) \<longrightarrow>
              requestCount out = ceil_div (totalRecords this remote year n) (pageSize this))"
proof -
  let ?r = "recordsAt this remote year (n * pageSize this)"
  have cont: "\<forall>i<n. continuesAt this remote year (i * pageSize this)"
    using assms(1) by (simp add: fullPageAt_D(1))
  from run_stops [OF cont shortPageAt_D(1) [OF assms(2)]] obtain out where out:
    "fetchYearData this remote year = Some out" "requestCount out = n + 1" "thrown out = None"
    "map_option bills (returned out) = Some (billsFrom this remote year 0 (Suc n))"
    by blast
  have r: "?r < pageSize this"
    by (rule shortPageAt_D(3) [OF assms(2)])
  have total: "totalRecords this remote year n = n * pageSize this + ?r"
    by (rule totalRecords_full [OF assms(1)])
  have "length (billsFrom this remote year 0 (Suc n)) =
          length (billsFrom this remote year 0 n) +
          length (billsAt this remote year (n * pageSize this))"
    by (simp only: billsFrom_snoc length_append add_0)
  then have count: "billCount out = totalRecords this remote year n"
    using returned_billCount [OF out(4)] length_billsFrom_full [OF assms(1)]
      shortPageAt_D(2) [OF assms(2)] total
    by simp
  have quot: "totalRecords this remote year n div pageSize this = n"
    using r by (simp add: total)
  have "requestCount out = ceil_div (totalRecords this remote year n) (pageSize this)"
    if "0 < ?r"
    using ceil_div_last_page [OF that r, of n] by (simp add: total out(2))
  with out count quot show ?thesis
    by auto
qed

theorem pagination_one_request_per_page_witness:
  "fullPageAt PatreonDataExporter remotePageAndHalf 2024 0 \<and>
   shortPageAt PatreonDataExporter remotePageAndHalf 2024 100 \<and>
   0 < recordsAt PatreonDataExporter remotePageAndHalf 2024 100 \<and>
   totalRecords PatreonDataExporter remotePageAndHalf 2024 1 = 150 \<and>
   map_option requestCount (fetchYearData PatreonDataExporter remotePageAndHalf 2024) = Some 2 \<and>
   map_option billCount (fetchYearData PatreonDataExporter remotePageAndHalf 2024) = Some 150 \<and>
   ceil_div 150 (pageSize PatreonDataExporter) = 2"
proof -
  have p: "pageSize PatreonDataExporter = 100"
    by (simp add: PatreonDataExporter_def)
  have f: "fullPageAt PatreonDataExporter remotePageAndHalf 2024 0"
    by code_simp
  have s: "shortPageAt PatreonDataExporter remotePageAndHalf 2024 100"
    by code_simp
  have r: "recordsAt PatreonDataExporter remotePageAndHalf 2024 100 = 50"
    by code_simp
  have t: "totalRecords PatreonDataExporter remotePageAndHalf 2024 1 = 150"
    by code_simp
  have "\<forall>i<1. fullPageAt PatreonDataExporter remotePageAndHalf 2024 (i * pageSize PatreonDataExporter)"
    using f by simp
  from pagination_one_request_per_page [OF this, of ] s
  obtain out where "fetchYearData PatreonDataExporter remotePageAndHalf 2024 = Some out"
    "billCount out = totalRecords PatreonDataExporter remotePageAndHalf 2024 1"
    "requestCount out = 1 + 1"
    "requestCount out = ceil_div (totalRecords PatreonDataExporter remotePageAndHalf 2024 1)
                          (pageSize PatreonDataExporter)"
    by (auto simp: p r)
  with f s r t show ?thesis
    by simp
qed

text \<open>
  Claim C1 as stated fails when the number of records is a multiple of the page size:
  one page of exactly 100 bills followed by an empty page takes two requests, while
  \<open>ceil(100 / 100) = 1\<close>.
\<close>

theorem pagination_ceil_counterexample:
  "fullPageAt PatreonDataExporter remoteExactlyOnePage 2024 0 \<and>
   shortPageAt PatreonDataExporter remoteExactlyOnePage 2024 100 \<and>
   totalRecords PatreonDataExporter remoteExactlyOnePage 2024 1 = 100 \<and>
   map_option requestCount (fetchYearData PatreonDataExporter remoteExactlyOnePage 2024) = Some 2 \<and>
   map_option billCount (fetchYearData PatreonDataExporter remoteExactlyOnePage 2024) = Some 100 \<and>
   ceil_div 100 (pageSize PatreonDataExporter) = 1"
  by code_simp

text \<open>
  Claim C5, as amended.  When the pages before offset \<open>k * pageSize\<close> let the loop go on
  and the request at that offset suffers a transport failure or gets a non-success
  status, \<^verbatim>\<open>fetchYearData\<close> ends there: the failing request is its last one and is sent
  once, the \<^verbatim>\<open>console.error\<close> line that follows it carries the year and the offset, and
  the underlying error is thrown unchanged in place of any result, the bills of the
  earlier pages included.
\<close>

theorem fetch_failure_aborts_year:
  assumes "\<forall>i<k. continuesAt this remote year (i * pageSize this)"
    and "failsAt this remote year (k * pageSize this) = Some err"
  shows "\<exists>evs. fetchYearData this remote year =
            Some (evs @ [Fetch (buildApiUrl this year (k * pageSize this)),
                         ConsoleError year (k * pageSize this) err], Inl err) \<and>
           length (filter isFetch evs) = k \<and> filter isConsoleError evs = []"
  using assms by (rule run_fails)

theorem fetch_failure_aborts_year_witness:
  "continuesAt PatreonDataExporter remoteFailsSecond 2024 0 \<and>
   failsAt PatreonDataExporter remoteFailsSecond 2024 100 =
     Some (Error ''HTTP 500: Internal Server Error'') \<and>
   map_option snd (fetchYearData PatreonDataExporter remoteFailsSecond 2024) =
     Some (Inl (Error ''HTTP 500: Internal Server Error'')) \<and>
   map_option logged (fetchYearData PatreonDataExporter remoteFailsSecond 2024) =
     Some [ConsoleError 2024 100 (Error ''HTTP 500: Internal Server Error'')] \<and>
   map_option requestCount (fetchYearData PatreonDataExporter remoteFailsSecond 2024) = Some 2"
proof -
  have p: "pageSize PatreonDataExporter = 100"
    by (simp add: PatreonDataExporter_def)
  have c: "continuesAt PatreonDataExporter remoteFailsSecond 2024 0"
    by code_simp
  have f: "failsAt PatreonDataExporter remoteFailsSecond 2024 100 =
     Some (Error ''HTTP 500: Internal Server Error'')"
    by (simp add: failsAt_def remoteFailsSecond_def buildApiUrl_def serverError_def ok_def
        string_of_nat.simps digit_def)
  have "\<forall>i<1. continuesAt PatreonDataExporter remoteFailsSecond 2024 (i * pageSize PatreonDataExporter)"
    using c by simp
  from fetch_failure_aborts_year [OF this, of "Error ''HTTP 500: Internal Server Error''"] f
  obtain evs where "fetchYearData PatreonDataExporter remoteFailsSecond 2024 =
            Some (evs @ [Fetch (buildApiUrl PatreonDataExporter 2024 100),
                         ConsoleError 2024 100 (Error ''HTTP 500: Internal Server Error'')],
                  Inl (Error ''HTTP 500: Internal Server Error''))"
    "length (filter isFetch evs) = 1" "filter isConsoleError evs = []"
    by (auto simp: p)
  with c f show ?thesis
    by (simp add: logged_def requestCount_def requests_def)
qed

text \<open>
  Claim C5 as stated fails in one respect: the error thrown does not carry the year or
  the offset.  A service that answers status 500 makes the runs for 2023 and for 2024
  throw the same error, and so does a failure at offset 100; the year and the offset
  appear in the \<^verbatim>\<open>console.error\<close> line only.
\<close>

theorem fetch_error_context_counterexample:
  "map_option thrown (fetchYearData PatreonDataExporter remoteDown 2023) =
     Some (Some (Error ''HTTP 500: Internal Server Error'')) \<and>
   map_option thrown (fetchYearData PatreonDataExporter remoteDown 2024) =
     Some (Some (Error ''HTTP 500: Internal Server Error'')) \<and>
   map_option thrown (fetchYearData PatreonDataExporter remoteFailsSecond 2024) =
     Some (Some (Error ''HTTP 500: Internal Server Error'')) \<and>
   map_option logged (fetchYearData PatreonDataExporter remoteDown 2023) =
     Some [ConsoleError 2023 0 (Error ''HTTP 500: Internal Server Error'')] \<and>
   map_option logged (fetchYearData PatreonDataExporter remoteFailsSecond 2024) =
     Some [ConsoleError 2024 100 (Error ''HTTP 500: Internal Server Error'')]"
proof -
  let ?e = "Error ''HTTP 500: Internal Server Error''"
  have p: "pageSize PatreonDataExporter = 100"
    by (simp add: PatreonDataExporter_def)
  have down: "failsAt PatreonDataExporter remoteDown y 0 = Some ?e" for y
    by (simp add: failsAt_def remoteDown_def serverError_def ok_def string_of_nat.simps digit_def)
  have c: "continuesAt PatreonDataExporter remoteFailsSecond 2024 0"
    by code_simp
  have second: "failsAt PatreonDataExporter remoteFailsSecond 2024 100 = Some ?e"
    by (simp add: failsAt_def remoteFailsSecond_def buildApiUrl_def serverError_def ok_def
        string_of_nat.simps digit_def)
  have run0: "map_option thrown (fetchYearData PatreonDataExporter remoteDown y) = Some (Some ?e) \<and>
              map_option logged (fetchYearData PatreonDataExporter remoteDown y) =
                Some [ConsoleError y 0 ?e]" for y
    using run_fails [of 0 PatreonDataExporter remoteDown y ?e] down [of y]
    by (auto simp: thrown_def logged_def)
  have run1: "map_option thrown (fetchYearData PatreonDataExporter remoteFailsSecond 2024) = Some (Some ?e) \<and>
              map_option logged (fetchYearData PatreonDataExporter remoteFailsSecond 2024) =
                Some [ConsoleError 2024 100 ?e]"
    using run_fails [of 1 PatreonDataExporter remoteFailsSecond 2024 ?e] c second
    by (auto simp: thrown_def logged_def p)
  from run0 [of 2023] run0 [of 2024] run1 show ?thesis
    by simp
qed

text \<open>
  Claim C10.  The end-of-data test counts the records of type \<^verbatim>\<open>bill\<close> only: when the
  page at offset \<open>k * pageSize\<close> holds fewer than \<open>pageSize\<close> such records, however many
  records it holds in all, the run ends with that request, and what it returns is the
  bill-typed records of the pages read, and nothing else.
\<close>

theorem end_of_data_counts_bills_only:
  assumes "\<forall>i<k. continuesAt this remote year (i * pageSize this)"
    and "pageAt this remote year (k * pageSize this) = Some d"
    and "length (filter (\<lambda>item. res_type item = ''bill'') (data d)) < pageSize this"
  shows "\<exists>out. fetchYearData this remote year = Some out \<and> thrown out = None \<and>
           requestCount out = k + 1 \<and>
           map_option bills (returned out) =
             Some (billsFrom this remote year 0 k @
                   filter (\<lambda>item. res_type item = ''bill'') (data d)) \<and>
           list_all (\<lambda>b. res_type b = ''bill'')
             (billsFrom this remote year 0 k @
              filter (\<lambda>item. res_type item = ''bill'') (data d))"
proof -
  have stop: "stopsAt this remote year (k * pageSize this)"
    using assms(2,3) by (simp add: stopsAt_def billsOf_def)
  have at: "billsAt this remote year (k * pageSize this) =
              filter (\<lambda>item. res_type item = ''bill'') (data d)"
    using assms(2) by (simp add: billsAt_def billsOf_def)
  from run_stops [OF assms(1) stop] obtain out where out:
    "fetchYearData this remote year = Some out" "requestCount out = k + 1" "thrown out = None"
    "map_option bills (returned out) = Some (billsFrom this remote year 0 (Suc k))"
    by blast
  have snoc: "billsFrom this remote year 0 (Suc k) =
        billsFrom this remote year 0 k @ filter (\<lambda>item. res_type item = ''bill'') (data d)"
    by (simp only: billsFrom_snoc add_0 at)
  have "list_all (\<lambda>b. res_type b = ''bill'') (billsFrom this remote year 0 (Suc k))"
    by (rule list_all_billsFrom)
  with out snoc show ?thesis
    by (simp del: billsFrom.simps)
qed

theorem end_of_data_counts_bills_only_witness:
  "continuesAt PatreonDataExporter remoteMixedPage 2024 0 \<and>
   pageAt PatreonDataExporter remoteMixedPage 2024 100 =
     Some \<lparr>data = alice # replicate 99 sampleBill, included = None, meta_count = None\<rparr> \<and>
   length (alice # replicate 99 sampleBill) = pageSize PatreonDataExporter \<and>
   length (filter (\<lambda>item. res_type item = ''bill'') (alice # replicate 99 sampleBill)) = 99 \<and>
   continuesAt PatreonDataExporter remoteMixedPage 2024 200 \<and>
   map_option requestCount (fetchYearData PatreonDataExporter remoteMixedPage 2024) = Some 2 \<and>
   map_option billCount (fetchYearData PatreonDataExporter remoteMixedPage 2024) = Some 199"
proof -
  let ?d = "\<lparr>data = alice # replicate 99 sampleBill, included = None, meta_count = None\<rparr>"
  have p: "pageSize PatreonDataExporter = 100"
    by (simp add: PatreonDataExporter_def)
  have pg: "pageAt PatreonDataExporter remoteMixedPage 2024 100 = Some ?d"
    by (simp add: pageAt_def remoteMixedPage_def okPage_def buildApiUrl_def ok_def)
  have f': "filter (\<lambda>item. res_type item = ''bill'') (alice # replicate 99 sampleBill) =
              replicate 99 sampleBill"
    by (simp add: alice_def campaignNamed_def sampleBill_def billTo_def)
  then have f: "filter (\<lambda>item. res_type item = ''bill'') (data ?d) = replicate 99 sampleBill"
    by simp
  have c0: "continuesAt PatreonDataExporter remoteMixedPage 2024 0"
    by code_simp
  have c2: "continuesAt PatreonDataExporter remoteMixedPage 2024 200"
    by code_simp
  have b0: "length (billsFrom PatreonDataExporter remoteMixedPage 2024 0 1) = 100"
    by code_simp
  have h1: "\<forall>i<1. continuesAt PatreonDataExporter remoteMixedPage 2024 (i * pageSize PatreonDataExporter)"
    using c0 by simp
  have h2: "pageAt PatreonDataExporter remoteMixedPage 2024 (1 * pageSize PatreonDataExporter) = Some ?d"
    using pg by (simp add: p)
  have h3: "length (filter (\<lambda>item. res_type item = ''bill'') (data ?d)) < pageSize PatreonDataExporter"
    by (simp only: f p length_replicate)
  from end_of_data_counts_bills_only [OF h1 h2 h3] obtain out where o:
    "fetchYearData PatreonDataExporter remoteMixedPage 2024 = Some out"
    "requestCount out = 1 + 1"
    "map_option bills (returned out) =
       Some (billsFrom PatreonDataExporter remoteMixedPage 2024 0 1 @
             filter (\<lambda>item. res_type item = ''bill'') (data ?d))"
    by blast
  have "map_option bills (returned out) =
          Some (billsFrom PatreonDataExporter remoteMixedPage 2024 0 1 @ replicate 99 sampleBill)"
    using o(3) by (simp only: f)
  from returned_billCount [OF this] have "billCount out = 199"
    by (simp only: length_append b0 length_replicate)
  with o(1,2) have "map_option requestCount (fetchYearData PatreonDataExporter remoteMixedPage 2024) = Some 2"
    and "map_option billCount (fetchYearData PatreonDataExporter remoteMixedPage 2024) = Some 199"
    by simp_all
  with pg c0 c2 show ?thesis
    by (simp only: f' p length_replicate length_Cons) simp
qed

section \<open>Properties of the reporter\<close>

lemmas num_text = toString_def toFixed2_def string_of_nat.simps digit_def

lemma js_insort_key:
  "js_insort (\<lambda>a b. f b - f a) x ys = insort_key (\<lambda>c. - f c) x ys"
  by (induction ys) auto

lemma js_sort_key: "js_sort (\<lambda>a b. f b - f a) xs = sort_key (\<lambda>c. - f c) xs"
  by (induction xs) (simp_all add: js_sort_def js_insort_key)

lemma js_sort_descending: "sorted_wrt (\<lambda>a b. f a \<ge> f b) (js_sort (\<lambda>a b. f b - f a) xs)"
proof -
  have "sorted (map (\<lambda>c. - f c) (sort_key (\<lambda>c. - f c) xs))"
    by (rule sorted_sort_key)
  then show ?thesis
    by (simp add: js_sort_key sorted_map)
qed

lemma js_sort_stable:
  "filter (\<lambda>c. f c = t) (js_sort (\<lambda>a b. f b - f a) xs) = filter (\<lambda>c. f c = t) xs"
  using sort_key_stable [of "\<lambda>c. - f c" "- t" xs] by (simp add: js_sort_key)

lemma js_sort_mset: "mset (js_sort (\<lambda>a b. f b - f a) xs) = mset xs"
  by (simp add: js_sort_key)

lemma sortedYears_descending: "sorted_wrt (\<ge>) (sortedYears years)"
  using js_sort_descending [of "\<lambda>y. y" years] by (simp add: sortedYears_def)

lemma sortedYears_mset: "mset (sortedYears years) = mset years"
  using js_sort_mset [of "\<lambda>y. y" years] by (simp add: sortedYears_def)

lemma descending_distinct_strict:
  "sorted_wrt (\<ge>) xs \<Longrightarrow> distinct xs \<Longrightarrow> sorted_wrt (>) (xs :: int list)"
  by (induction xs) (auto simp: order_less_le)

lemma sortedYears_strict:
  assumes "distinct years"
  shows "sorted_wrt (>) (sortedYears years)"
proof -
  have "distinct (sortedYears years)"
    using assms sortedYears_mset [of years] by (metis mset_eq_imp_distinct_iff)
  with sortedYears_descending [of years] show ?thesis
    by (rule descending_distinct_strict)
qed

lemma yearColumns_headers:
  "yearColumns (headers years) = map (\<lambda>year. ''Total Spend '' @ toString year) (sortedYears years)"
  by (simp add: yearColumns_def headers_def)

lemma yearColumns_csvRow:
  "yearColumns (csvRow NumberFormat ys c) =
     map (\<lambda>year. snd (formatCurrency NumberFormat (yearSpend (yearlySpends c) year) (creator_currency c))) ys"
  by (simp add: yearColumns_def csvRow_def)



text \<open>
  Claim C6.  The data rows of the report are the rows of the creators sorted by total
  spend, largest first, and creators with equal totals keep the order in which the
  aggregate lists them.  With totals 500, 1500 and 300 the rows come in the order 1500,
  500, 300.
\<close>

theorem rows_sorted_by_total_descending:
  "rows NumberFormat creatorData years =
     headers years #
     map (csvRow NumberFormat (sortedYears years)) (sortedCreators creatorData years) \<and>
   sorted_wrt (\<ge>) (map totalAmountCents (sortedCreators creatorData years)) \<and>
   mset (sortedCreators creatorData years) = mset (creatorsArray creatorData years) \<and>
   filter (\<lambda>c. totalAmountCents c = t) (sortedCreators creatorData years) =
     filter (\<lambda>c. totalAmountCents c = t) (creatorsArray creatorData years)"
proof (intro conjI)
  show "rows NumberFormat creatorData years =
     headers years #
     map (csvRow NumberFormat (sortedYears years)) (sortedCreators creatorData years)"
    by (simp add: rows_def)
  show "sorted_wrt (\<ge>) (map totalAmountCents (sortedCreators creatorData years))"
    using js_sort_descending [of totalAmountCents "creatorsArray creatorData years"]
    by (simp add: sortedCreators_def sorted_wrt_map)
  show "mset (sortedCreators creatorData years) = mset (creatorsArray creatorData years)"
    by (simp add: sortedCreators_def js_sort_mset)
  show "filter (\<lambda>c. totalAmountCents c = t) (sortedCreators creatorData years) =
     filter (\<lambda>c. totalAmountCents c = t) (creatorsArray creatorData years)"
    by (simp add: sortedCreators_def js_sort_stable)
qed

theorem rows_sorted_by_total_descending_witness:
  "map totalAmountCents
     (sortedCreators [creatorWith ''A'' 500, creatorWith ''B'' 1500, creatorWith ''C'' 300] [2023]) =
     [1500, 500, 300] \<and>
   map hd (rows noIntl [creatorWith ''A'' 500, creatorWith ''B'' 1500, creatorWith ''C'' 300] [2023]) =
     [''Creator'', ''B'', ''A'', ''C''] \<and>
   map hd (rows noIntl [creatorWith ''A'' 500, creatorWith ''B'' 1500, creatorWith ''C'' 300,
                        creatorWith ''D'' 500] [2023]) =
     [''Creator'', ''B'', ''A'', ''D'', ''C'']"
proof -
  have y: "toString 2023 = ''2023''"
    by (simp add: num_text)
  have t: "totalAmountCents (withTotal [2023] (snd (creatorWith n v))) = v" for n v
    by (simp add: withTotal_def creatorWith_def yearSpend_def or_zero_def y)
  have n: "creator_name (withTotal [2023] (snd (creatorWith n v))) = n" for n v
    by (simp add: withTotal_def creatorWith_def)
  have s3: "sortedCreators [creatorWith ''A'' 500, creatorWith ''B'' 1500, creatorWith ''C'' 300] [2023] =
     map (withTotal [2023] \<circ> snd) [creatorWith ''B'' 1500, creatorWith ''A'' 500, creatorWith ''C'' 300]"
    by (simp add: sortedCreators_def creatorsArray_def js_sort_def t)
  have s4: "sortedCreators [creatorWith ''A'' 500, creatorWith ''B'' 1500, creatorWith ''C'' 300,
                            creatorWith ''D'' 500] [2023] =
     map (withTotal [2023] \<circ> snd)
       [creatorWith ''B'' 1500, creatorWith ''A'' 500, creatorWith ''D'' 500, creatorWith ''C'' 300]"
    by (simp add: sortedCreators_def creatorsArray_def js_sort_def t)
  have h: "hd (csvRow NumberFormat ys c) = creator_name c" for NumberFormat ys c
    by (simp add: csvRow_def)
  have hh: "hd (headers ys) = ''Creator''" for ys
    by (simp add: headers_def)
  from rows_sorted_by_total_descending
         [of noIntl "[creatorWith ''A'' 500, creatorWith ''B'' 1500, creatorWith ''C'' 300]" "[2023]"]
       rows_sorted_by_total_descending
         [of noIntl "[creatorWith ''A'' 500, creatorWith ''B'' 1500, creatorWith ''C'' 300,
                      creatorWith ''D'' 500]" "[2023]"]
  show ?thesis
    by (simp add: s3 s4 t n h hh)
qed

text \<open>
  Claim C7, as amended.  Whatever the order in which the years are supplied, the year
  columns of the header and of every data row follow the supplied years sorted largest
  first: in descending order always, and in strictly descending order when no year is
  supplied twice.  The cell of a creator for a year is the formatted amount recorded for
  that year, and the formatted amount 0 when none is recorded.
\<close>

theorem year_columns_descending:
  "sorted_wrt (\<ge>) (sortedYears years) \<and> mset (sortedYears years) = mset years \<and>
   (distinct years \<longrightarrow> sorted_wrt (>) (sortedYears years)) \<and>
   map yearColumns (rows NumberFormat creatorData years) =
     map (\<lambda>year. ''Total Spend '' @ toString year) (sortedYears years) #
     map (\<lambda>c. map (\<lambda>year. snd (formatCurrency NumberFormat
                              (case map_of (yearlySpends c) (toString year) of
                                 None \<Rightarrow> 0 | Some v \<Rightarrow> v)
                              (creator_currency c)))
                 (sortedYears years))
       (sortedCreators creatorData years)"
  by (simp add: sortedYears_descending sortedYears_mset sortedYears_strict rows_def
      yearColumns_headers yearColumns_csvRow yearSpend_def or_zero_def)

theorem year_columns_descending_witness:
  "distinct [2022, 2024, 2023 :: int] \<and>
   sortedYears [2022, 2024, 2023] = [2024, 2023, 2022] \<and>
   sorted_wrt (>) (sortedYears [2022, 2024, 2023]) \<and>
   map yearColumns (rows noIntl [creatorWith ''A'' 500] [2022, 2024, 2023]) =
     [[''Total Spend 2024'', ''Total Spend 2023'', ''Total Spend 2022''],
      [''USD 0.00'', ''USD 5.00'', ''USD 0.00'']]"
proof -
  have d: "distinct [2022, 2024, 2023 :: int]"
    by simp
  have s: "sortedYears [2022, 2024, 2023] = [2024, 2023, 2022]"
    by (simp add: sortedYears_def js_sort_def)
  have c: "sortedCreators [creatorWith ''A'' 500] ys = [withTotal ys (snd (creatorWith ''A'' 500))]" for ys
    by (simp add: sortedCreators_def creatorsArray_def js_sort_def)
  have y: "toString 2022 = ''2022''" "toString 2023 = ''2023''" "toString 2024 = ''2024''"
    by (simp_all add: num_text)
  have a: "toFixed2 0 = ''0.00''" "toFixed2 500 = ''5.00''"
    by (simp_all add: num_text)
  have sel: "yearlySpends (withTotal ys (snd (creatorWith ''A'' 500))) = [(''2023'', 500)]"
    "creator_currency (withTotal ys (snd (creatorWith ''A'' 500))) = ''USD''" for ys
    by (simp_all add: withTotal_def creatorWith_def)
  from year_columns_descending [of "[2022, 2024, 2023]" noIntl "[creatorWith ''A'' 500]"] d s
  show ?thesis
    by (simp add: c sel formatCurrency_def noIntl_def y a)
qed

text \<open>
  Claim C7 as stated fails for a year supplied twice: the two columns of that year are
  equal, so the columns are not in strictly descending order.
\<close>

theorem year_columns_strict_counterexample:
  "yearColumns (headers [2023, 2023]) = [''Total Spend 2023'', ''Total Spend 2023''] \<and>
   sortedYears [2023, 2023] = [2023, 2023] \<and>
   \<not> sorted_wrt (>) (sortedYears [2023, 2023])"
  by (simp add: yearColumns_def headers_def sortedYears_def js_sort_def num_text)

end
